theory Spec2Isabelle
  imports Complex_Main "HOL-Library.Sublist"
begin

section \<open>Text and regular expressions\<close>

text \<open>
  Text is a list of 8-bit characters. The characters the source's regular
  expressions and string operations single out are all ASCII; the two further
  ECMAScript line terminators U+2028 and U+2029 have no 8-bit character and
  are outside the modelled texts.
\<close>

abbreviation (input) LF :: char where "LF \<equiv> CHR 0x0A"
abbreviation (input) CR :: char where "CR \<equiv> CHR 0x0D"
abbreviation (input) SQ :: char where "SQ \<equiv> CHR 0x27"
abbreviation (input) DQ :: char where "DQ \<equiv> CHR 0x22"

text \<open>
  The fragment of the ECMAScript pattern language that the source's regular
  expression literals use: literal text, \<open>.\<close>, a negated character class,
  \<open>\d\<close>, sequence, alternation, the greedy quantifiers \<open>?\<close> and \<open>*\<close>
  (\<open>a+\<close> is \<open>a\<close> followed by \<open>a*\<close>), and numbered capture groups.
\<close>

datatype regex =
    Lit string
  | Dot
  | NoneOf string
  | Digit
  | Seq regex regex
  | Alt regex regex
  | Opt regex
  | Star regex
  | Group nat regex

abbreviation (input) Plus :: "regex \<Rightarrow> regex" where
  "Plus a \<equiv> Seq a (Star a)"

type_synonym captures = "nat \<rightharpoonup> string"
type_synonym mstate = "string \<times> captures"

fun isDot :: "char \<Rightarrow> bool" where
  "isDot c = (c \<noteq> LF \<and> c \<noteq> CR)"

fun isDigit :: "char \<Rightarrow> bool" where
  "isDigit c = (c \<in> set ''0123456789'')"

fun oneChar :: "(char \<Rightarrow> bool) \<Rightarrow> mstate \<Rightarrow> mstate list" where
  "oneChar P ([], k) = []"
| "oneChar P (x # xs, k) = (if P x then [(xs, k)] else [])"

text \<open>
  The backtracking matcher. \<open>rmatch r (s, k)\<close> lists, in the order a
  backtracking engine tries them, every way \<open>r\<close> can match a prefix of \<open>s\<close>:
  the text left over and the captures. The head of the list is the match the
  engine reports. A quantifier prefers one more iteration and rejects an
  iteration that consumes nothing. No pattern of the source has a capture
  group under a quantifier, so captures are never reset.
\<close>

fun rmatch :: "regex \<Rightarrow> mstate \<Rightarrow> mstate list" where
  "rmatch (Lit w) (s, k) = (if prefix w s then [(drop (length w) s, k)] else [])"
| "rmatch Dot st = oneChar isDot st"
| "rmatch (NoneOf cs) st = oneChar (\<lambda>c. c \<notin> set cs) st"
| "rmatch Digit st = oneChar isDigit st"
| "rmatch (Seq a b) st = concat (map (rmatch b) (rmatch a st))"
| "rmatch (Alt a b) st = rmatch a st @ rmatch b st"
| "rmatch (Opt a) (s, k) =
     filter (\<lambda>(s', k'). length s' < length s) (rmatch a (s, k)) @ [(s, k)]"
| "rmatch (Star a) (s, k) =
     concat (map (\<lambda>(s', k'). if length s' < length s then rmatch (Star a) (s', k') else [])
                 (rmatch a (s, k))) @ [(s, k)]"
| "rmatch (Group i a) (s, k) =
     map (\<lambda>(s', k'). (s', k'(i \<mapsto> take (length s - length s') s))) (rmatch a (s, k))"

text \<open>
  \<open>String.prototype.match\<close> with a pattern that has no \<open>g\<close> flag: the
  leftmost start position at which the pattern matches; \<open>whole\<close> is
  \<open>match[0]\<close> and \<open>groups m i\<close> is \<open>match[i]\<close> (\<open>None\<close> for
  \<open>undefined\<close>).
\<close>

record jsmatch =
  whole :: string
  groups :: captures

fun strMatch :: "regex \<Rightarrow> string \<Rightarrow> jsmatch option" where
  "strMatch r s =
     (case rmatch r (s, Map.empty) of
        (s', k) # _ \<Rightarrow> Some \<lparr>whole = take (length s - length s') s, groups = k\<rparr>
      | [] \<Rightarrow> (case s of [] \<Rightarrow> None | _ # xs \<Rightarrow> strMatch r xs))"

text \<open>\<open>s.split('\n')\<close>: never empty, \<open>''''.split('\n')\<close> is \<open>['''']\<close>.\<close>

fun splitLF :: "string \<Rightarrow> string list" where
  "splitLF [] = [[]]"
| "splitLF (c # cs) =
     (if c = LF then [] # splitLF cs
      else (case splitLF cs of [] \<Rightarrow> [[c]] | l # ls \<Rightarrow> (c # l) # ls))"

text \<open>
  A JavaScript number as far as the code produces one: an integer below
  \<open>2 ^ 53\<close>, which a double holds exactly; a larger integer, which the
  double rounds and whose value is left open here; or NaN.
\<close>

datatype jsNumber = Num nat | Rounded | NaN

text \<open>
  \<open>parseInt(s, 10)\<close> on the digit strings it is applied to (a capture of
  \<open>\d+\<close>): the value of the leading digits, NaN when there is none.
\<close>

fun digitVal :: "char \<Rightarrow> nat" where
  "digitVal c = of_char c - 48"

definition parseInt10 :: "string \<Rightarrow> jsNumber" where
  "parseInt10 s =
     (let ds = takeWhile isDigit s;
          v = foldl (\<lambda>n c. 10 * n + digitVal c) 0 ds
      in if ds = [] then NaN else if v < 2 ^ 53 then Num v else Rounded)"

section \<open>types/index.ts\<close>

record DebugContext =
  command :: string
  "output" :: string
  error :: string
  workingDirectory :: string
  timestamp :: nat

datatype ErrorType =
    ET_SYNTAX | ET_RUNTIME | ET_TYPE | ET_COMMAND | ET_MODULE | ET_PERMISSION | ET_UNKNOWN

text \<open>
  The confidence constants are the decimal literals of the source, taken as
  rationals; the code compares and copies them and never computes with them.
\<close>

record ErrorAnalysis =
  type :: ErrorType
  message :: string
  "file" :: "string option"
  line :: "jsNumber option"
  suggestion :: "string option"
  confidence :: rat

datatype FixType =
    FT_COMMAND | FT_FILE_EDIT | FT_INSTALL_PACKAGE | FT_PERMISSION_CHANGE | FT_CONFIG_UPDATE

section \<open>core/errorDetector.ts\<close>

abbreviation (input) capture1 :: "string \<Rightarrow> regex" where
  "capture1 w \<equiv> Seq (Lit w) (Group 1 (Plus Dot))"

abbreviation (input) quoted1 :: "string \<Rightarrow> string \<Rightarrow> regex" where
  "quoted1 w e \<equiv> Seq (Lit w) (Seq (Group 1 (Plus Dot)) (Lit e))"

abbreviation (input) quoted2 :: "string \<Rightarrow> string \<Rightarrow> regex" where
  "quoted2 w mid \<equiv>
     Seq (Lit (w @ [SQ])) (Seq (Group 1 (Plus Dot))
       (Seq (Lit ([SQ] @ mid @ [SQ])) (Seq (Group 2 (Plus Dot)) (Lit [SQ]))))"

definition syntaxPatterns :: "regex list" where
  "syntaxPatterns =
     [capture1 ''SyntaxError: '',
      capture1 ''ParseError: '',
      capture1 ''Unexpected token '',
      capture1 ''Unterminated '']"

definition typePatterns :: "regex list" where
  "typePatterns =
     [capture1 ''TypeError: '',
      quoted2 ''Type '' '' is not assignable to type '',
      quoted2 ''Property '' '' does not exist on type '']"

definition modulePatterns :: "regex list" where
  "modulePatterns =
     [quoted1 (''Cannot find module '' @ [SQ]) [SQ],
      capture1 ''Module not found: '',
      quoted1 (''Failed to resolve import '' @ [DQ]) [DQ],
      quoted1 (''No module named '' @ [SQ]) [SQ]]"

definition runtimePatterns :: "regex list" where
  "runtimePatterns =
     [capture1 ''ReferenceError: '',
      capture1 ''RangeError: '',
      Lit ''Maximum call stack size exceeded'']"

definition permissionPatterns :: "regex list" where
  "permissionPatterns =
     [Lit ''Permission denied'',
      Lit ''EACCES: permission denied'',
      Lit ''Operation not permitted'']"

definition commandPatterns :: "regex list" where
  "commandPatterns =
     [capture1 ''command not found: '',
      quoted1 ''bash: '' '': command not found'',
      capture1 ''zsh: command not found: '']"

text \<open>
  The \<open>patterns\<close> object; \<open>Object.entries\<close> lists its keys in the order
  they are written.
\<close>

definition patterns :: "(ErrorType \<times> regex list) list" where
  "patterns =
     [(ET_SYNTAX, syntaxPatterns),
      (ET_TYPE, typePatterns),
      (ET_MODULE, modulePatterns),
      (ET_RUNTIME, runtimePatterns),
      (ET_PERMISSION, permissionPatterns),
      (ET_COMMAND, commandPatterns)]"

text \<open>The pattern \<open>/(?:at |in |from )(?:.*\()?([^():]+):(\d+)/\<close> of createAnalysis.\<close>

definition filePattern :: regex where
  "filePattern =
     Seq (Alt (Lit ''at '') (Alt (Lit ''in '') (Lit ''from '')))
       (Seq (Opt (Seq (Star Dot) (Lit ''('')))
         (Seq (Group 1 (Plus (NoneOf ''():'')))
           (Seq (Lit '':'') (Group 2 (Plus Digit)))))"

text \<open>A value spliced into a template literal: \<open>undefined\<close> prints as its name.\<close>

fun templ :: "string option \<Rightarrow> string" where
  "templ None = ''undefined''"
| "templ (Some s) = s"

definition createAnalysis ::
  "ErrorType \<Rightarrow> string \<Rightarrow> string \<Rightarrow> string option \<Rightarrow> ErrorAnalysis" where
  "createAnalysis ty msg fullError detail =
     (let analysis = \<lparr>type = ty, message = msg, file = None, line = None,
                       suggestion = None, confidence = 0.8\<rparr>;
          analysis = (case strMatch filePattern fullError of
                        Some fileMatch \<Rightarrow>
                          analysis\<lparr>file := groups fileMatch 1,
                                   line := Some (case groups fileMatch 2 of
                                                   None \<Rightarrow> NaN
                                                 | Some ds \<Rightarrow> parseInt10 ds)\<rparr>
                      | None \<Rightarrow> analysis)
      in (case ty of
            ET_MODULE \<Rightarrow>
              analysis\<lparr>suggestion := Some (''Install missing module: '' @ templ detail)\<rparr>
          | ET_COMMAND \<Rightarrow>
              analysis\<lparr>suggestion := Some (''Command not found: '' @ templ detail
                            @ ''. Check if it'' @ [SQ] @ ''s installed or in PATH.'')\<rparr>
          | ET_PERMISSION \<Rightarrow>
              analysis\<lparr>suggestion :=
                Some ''Try running with elevated permissions or check file ownership.''\<rparr>
          | _ \<Rightarrow> analysis))"

text \<open>The inner loop of detect: one category's patterns, in declaration order.\<close>

fun scanPatterns :: "ErrorType \<Rightarrow> regex list \<Rightarrow> string \<Rightarrow> ErrorAnalysis option" where
  "scanPatterns ty [] errorText = None"
| "scanPatterns ty (pattern # rest) errorText =
     (case strMatch pattern errorText of
        Some m \<Rightarrow> Some (createAnalysis ty (whole m) errorText (groups m 1))
      | None \<Rightarrow> scanPatterns ty rest errorText)"

text \<open>The outer loop of detect: the categories, in the order of the table.\<close>

fun scanEntries :: "(ErrorType \<times> regex list) list \<Rightarrow> string \<Rightarrow> ErrorAnalysis option" where
  "scanEntries [] errorText = None"
| "scanEntries ((ty, ps) # rest) errorText =
     (case scanPatterns ty ps errorText of
        Some a \<Rightarrow> Some a
      | None \<Rightarrow> scanEntries rest errorText)"

text \<open>\<open>context.error || context.output\<close>: the empty string is falsy.\<close>

definition errorTextOf :: "DebugContext \<Rightarrow> string" where
  "errorTextOf c = (if error c \<noteq> [] then error c else output c)"

definition detect :: "DebugContext \<Rightarrow> ErrorAnalysis option" where
  "detect c =
     (let errorText = errorTextOf c
      in if errorText = [] then None
         else (case scanEntries patterns errorText of
                 Some a \<Rightarrow> Some a
               | None \<Rightarrow>
                   Some \<lparr>type = ET_UNKNOWN, message = hd (splitLF errorText),
                         file = None, line = None, suggestion = None,
                         confidence = 0.5\<rparr>))"

section \<open>core/debugEngine.ts\<close>

text \<open>
  What an operation of the engine can throw: its own three errors
  (\<open>Session not found\<close>, \<open>No analysis available for session\<close>,
  \<open>Fix not found\<close>) and whatever a collaborator throws, kept as it is.
\<close>

datatype failure = SessionNotFound | NoAnalysis | FixNotFound | Thrown string

text \<open>
  The deferred operation of a fix is a closure in the source. It is kept as a
  value naming the closure and what it captured, and run by \<open>runAction\<close>:
  the module name of createModuleInstallFix, the command of createCommandFix,
  the file of the analysis of createPermissionFix, the trimmed command and the
  working directory of createAIFix.
\<close>

datatype action =
    InstallModule string
  | PrintAdvice string
  | ChmodFile "string option"
  | RunSuggested string string

text \<open>Fix: the fields \<open>type\<close>, \<open>confidence\<close> and \<open>apply\<close> carry a prefix here.\<close>

record Fix =
  fixType :: FixType
  description :: string
  fixConfidence :: rat
  fixApply :: action

record DebugSession =
  sessionId :: string
  startTime :: nat
  sessionContext :: DebugContext
  analysis :: "ErrorAnalysis option"
  "fixes" :: "Fix list option"
  applied :: bool

text \<open>
  The collaborators, as the answers they give: whether \<open>fs.access\<close> finds a
  file, whether \<open>execAsync\<close> rejects a command run in a directory (and with
  what), and what the Ollama service returns or throws. The service's
  analyzeError receives the error text and the JSON text of command and
  working directory; the model hands it the two fields themselves.
\<close>

record env =
  fsAccess :: "string \<Rightarrow> bool"
  execAsync :: "string \<Rightarrow> string option \<Rightarrow> string option"
  ollamaAnalyzeError :: "string \<Rightarrow> string \<Rightarrow> string \<Rightarrow> failure + string"
  ollamaGenerateResponse :: "string \<Rightarrow> failure + string"

text \<open>What a deferred operation does to the outside world, in order.\<close>

datatype effect = FsAccess string | Exec string "string option" | ConsoleLog string

text \<open>
  The engine: its session map, the trace of effects of the deferred operations
  it has run, and the history of \<open>fix.apply()\<close> calls of applyFix (session
  identifier and index), kept to state how often an operation has run.
\<close>

record engine =
  sessions :: "string \<rightharpoonup> DebugSession"
  effects :: "effect list"
  applyCalls :: "(string \<times> nat) list"

definition createSession ::
  "string \<Rightarrow> nat \<Rightarrow> DebugContext \<Rightarrow> engine \<Rightarrow> string \<times> engine" where
  "createSession randomId now c st =
     (let session = \<lparr>sessionId = randomId, startTime = now, sessionContext = c,
                      analysis = None, fixes = None, applied = False\<rparr>
      in (randomId, st\<lparr>sessions := (sessions st)(randomId \<mapsto> session)\<rparr>))"

definition analyzeError ::
  "env \<Rightarrow> string \<Rightarrow> engine \<Rightarrow> (failure + ErrorAnalysis option) \<times> engine" where
  "analyzeError e sid st =
     (case sessions st sid of
        None \<Rightarrow> (Inl SessionNotFound, st)
      | Some session \<Rightarrow>
          (case detect (sessionContext session) of
             None \<Rightarrow> (Inr None, st)
           | Some a \<Rightarrow>
               (case ollamaAnalyzeError e (errorTextOf (sessionContext session))
                       (command (sessionContext session))
                       (workingDirectory (sessionContext session)) of
                  Inl err \<Rightarrow> (Inl err, st)
                | Inr aiAnalysis \<Rightarrow>
                    (let a' = a\<lparr>suggestion := Some aiAnalysis\<rparr>
                     in (Inr (Some a'),
                         st\<lparr>sessions :=
                              (sessions st)(sid \<mapsto> session\<lparr>analysis := Some a'\<rparr>)\<rparr>)))))"

text \<open>\<open>x || d\<close> for a possibly undefined string \<open>x\<close>: the empty string is falsy.\<close>

fun orElse :: "string option \<Rightarrow> string \<Rightarrow> string" where
  "orElse (Some (c # cs)) d = c # cs"
| "orElse _ d = d"

text \<open>\<open>/Cannot find module '(.+)'|Module not found: (.+)/\<close>\<close>

definition moduleNamePattern :: regex where
  "moduleNamePattern =
     Alt (quoted1 (''Cannot find module '' @ [SQ]) [SQ])
         (Seq (Lit ''Module not found: '') (Group 2 (Plus Dot)))"

definition createModuleInstallFix :: "ErrorAnalysis \<Rightarrow> Fix" where
  "createModuleInstallFix a =
     (let moduleMatch = strMatch moduleNamePattern (message a);
          moduleName = orElse (Option.bind moduleMatch (\<lambda>m. groups m 1))
                         (orElse (Option.bind moduleMatch (\<lambda>m. groups m 2)) ''unknown'')
      in \<lparr>fixType = FT_INSTALL_PACKAGE,
          description = ''Install missing module: '' @ moduleName,
          fixConfidence = 0.9,
          fixApply = InstallModule moduleName\<rparr>)"

definition createCommandFix :: "ErrorAnalysis \<Rightarrow> Fix" where
  "createCommandFix a =
     (let commandMatch = strMatch (capture1 ''command not found: '') (message a);
          cmd = orElse (Option.bind commandMatch (\<lambda>m. groups m 1)) ''unknown''
      in \<lparr>fixType = FT_COMMAND,
          description = ''Install or add '' @ cmd @ '' to PATH'',
          fixConfidence = 0.8,
          fixApply = PrintAdvice cmd\<rparr>)"

definition createPermissionFix :: "ErrorAnalysis \<Rightarrow> Fix" where
  "createPermissionFix a =
     \<lparr>fixType = FT_PERMISSION_CHANGE,
      description = ''Fix file permissions'',
      fixConfidence = 0.7,
      fixApply = ChmodFile (file a)\<rparr>"

text \<open>\<open>String.prototype.trim\<close>: white space and line terminators, both ends.\<close>

fun isWhite :: "char \<Rightarrow> bool" where
  "isWhite c = (c \<in> {CHR 0x09, CHR 0x0A, CHR 0x0B, CHR 0x0C, CHR 0x0D, CHR 0x20, CHR 0xA0})"

definition trim :: "string \<Rightarrow> string" where
  "trim s = rev (dropWhile isWhite (rev (dropWhile isWhite s)))"

definition fixPrompt :: "DebugSession \<Rightarrow> string" where
  "fixPrompt session =
     [LF] @ ''Given this error:'' @ [LF]
     @ errorTextOf (sessionContext session) @ [LF, LF]
     @ ''From command: '' @ command (sessionContext session) @ [LF]
     @ ''In directory: '' @ workingDirectory (sessionContext session) @ [LF, LF]
     @ ''Provide a specific fix command that can be executed to resolve this issue.'' @ [LF]
     @ ''Respond with ONLY the command, no explanation.''"

definition createAIFix :: "env \<Rightarrow> DebugSession \<Rightarrow> failure + Fix option" where
  "createAIFix e session =
     (case ollamaGenerateResponse e (fixPrompt session) of
        Inl err \<Rightarrow> Inl err
      | Inr fixCommand \<Rightarrow>
          if fixCommand = [] \<or> trim fixCommand = [] then Inr None
          else Inr (Some \<lparr>fixType = FT_COMMAND,
                          description = ''Run suggested fix: '' @ trim fixCommand,
                          fixConfidence = 0.6,
                          fixApply = RunSuggested (trim fixCommand)
                                       (workingDirectory (sessionContext session))\<rparr>))"

definition generateFixes ::
  "env \<Rightarrow> string \<Rightarrow> engine \<Rightarrow> (failure + Fix list) \<times> engine" where
  "generateFixes e sid st =
     (case sessions st sid of
        None \<Rightarrow> (Inl NoAnalysis, st)
      | Some session \<Rightarrow>
          (case analysis session of
             None \<Rightarrow> (Inl NoAnalysis, st)
           | Some a \<Rightarrow>
               (let made =
                      (case type a of
                         ET_MODULE \<Rightarrow> Inr [createModuleInstallFix a]
                       | ET_COMMAND \<Rightarrow> Inr [createCommandFix a]
                       | ET_PERMISSION \<Rightarrow> Inr [createPermissionFix a]
                       | _ \<Rightarrow>
                           (case createAIFix e session of
                              Inl err \<Rightarrow> Inl err
                            | Inr None \<Rightarrow> Inr []
                            | Inr (Some aiFix) \<Rightarrow> Inr [aiFix]))
                in (case made of
                      Inl err \<Rightarrow> (Inl err, st)
                    | Inr fs \<Rightarrow>
                        (Inr fs,
                         st\<lparr>sessions :=
                              (sessions st)(sid \<mapsto> session\<lparr>fixes := Some fs\<rparr>)\<rparr>)))))"

text \<open>detectPackageManager: the lock files are probed in order, npm is the default.\<close>

definition managers :: "(string \<times> string) list" where
  "managers =
     [(''bun'', ''bun.lockb''),
      (''pnpm'', ''pnpm-lock.yaml''),
      (''yarn'', ''yarn.lock''),
      (''npm'', ''package-lock.json'')]"

fun probeManagers :: "env \<Rightarrow> (string \<times> string) list \<Rightarrow> string \<times> effect list" where
  "probeManagers e [] = (''npm'', [])"
| "probeManagers e ((cmd, f) # rest) =
     (if fsAccess e f then (cmd, [FsAccess f])
      else (case probeManagers e rest of (c, es) \<Rightarrow> (c, FsAccess f # es)))"

definition detectPackageManager :: "env \<Rightarrow> string \<times> effect list" where
  "detectPackageManager e = probeManagers e managers"

definition runExec :: "env \<Rightarrow> string \<Rightarrow> string option \<Rightarrow> (failure + unit) \<times> effect list" where
  "runExec e cmd cwd =
     ((case execAsync e cmd cwd of None \<Rightarrow> Inr () | Some err \<Rightarrow> Inl (Thrown err)),
      [Exec cmd cwd])"

text \<open>Running a deferred operation: its outcome and the effects it had.\<close>

fun runAction :: "env \<Rightarrow> action \<Rightarrow> (failure + unit) \<times> effect list" where
  "runAction e (InstallModule moduleName) =
     (case detectPackageManager e of
        (packageManager, probes) \<Rightarrow>
          (case runExec e (packageManager @ '' add '' @ moduleName) None of
             (r, es) \<Rightarrow> (r, probes @ es)))"
| "runAction e (PrintAdvice cmd) =
     (Inr (), [ConsoleLog (''Please install '' @ cmd @ '' or ensure it'' @ [SQ]
                             @ ''s in your PATH'')])"
| "runAction e (ChmodFile (Some (c # cs))) = runExec e (''chmod +x '' @ c # cs) None"
| "runAction e (ChmodFile _) = (Inr (), [])"
| "runAction e (RunSuggested cmd cwd) = runExec e cmd (Some cwd)"

text \<open>
  applyFix. The index is a JavaScript number; an integer here, so that a
  negative index is an input. \<open>session.fixes[fixIndex]\<close> is undefined, hence
  falsy, outside the list; a Fix object is truthy.
\<close>

definition applyFix ::
  "env \<Rightarrow> string \<Rightarrow> int \<Rightarrow> engine \<Rightarrow> (failure + unit) \<times> engine" where
  "applyFix e sid fixIndex st =
     (case sessions st sid of
        None \<Rightarrow> (Inl FixNotFound, st)
      | Some session \<Rightarrow>
          (case fixes session of
             None \<Rightarrow> (Inl FixNotFound, st)
           | Some fs \<Rightarrow>
               if fixIndex < 0 \<or> int (length fs) \<le> fixIndex then (Inl FixNotFound, st)
               else
                 (case runAction e (fixApply (fs ! nat fixIndex)) of
                    (r, es) \<Rightarrow>
                      (let st1 = st\<lparr>effects := effects st @ es,
                                      applyCalls := applyCalls st @ [(sid, nat fixIndex)]\<rparr>
                       in (case r of
                             Inl err \<Rightarrow> (Inl err, st1)
                           | Inr _ \<Rightarrow>
                               (Inr (),
                                st1\<lparr>sessions :=
                                      (sessions st1)(sid \<mapsto> session\<lparr>applied := True\<rparr>)\<rparr>))))))"

definition getSession :: "string \<Rightarrow> engine \<Rightarrow> DebugSession option" where
  "getSession sid st = sessions st sid"

text \<open>
  A call of the orchestrator together with the answers of the collaborators
  during that call, and the engine after a sequence of calls. The engine
  starts with no session.
\<close>

datatype call =
    CreateSession string nat DebugContext
  | AnalyzeError string
  | GenerateFixes string
  | ApplyFix string int

fun step :: "engine \<Rightarrow> env \<times> call \<Rightarrow> engine" where
  "step st (e, CreateSession randomId now c) = snd (createSession randomId now c st)"
| "step st (e, AnalyzeError sid) = snd (analyzeError e sid st)"
| "step st (e, GenerateFixes sid) = snd (generateFixes e sid st)"
| "step st (e, ApplyFix sid i) = snd (applyFix e sid i st)"

definition run :: "engine \<Rightarrow> (env \<times> call) list \<Rightarrow> engine" where
  "run st cs = foldl step st cs"

definition newEngine :: engine where
  "newEngine = \<lparr>sessions = Map.empty, effects = [], applyCalls = []\<rparr>"

section \<open>Notions used to state the properties\<close>

text \<open>
  The pattern table read row by row: every pattern paired with its category,
  in the order the two loops of detect visit them.
\<close>

definition entries :: "(ErrorType \<times> regex list) list \<Rightarrow> (ErrorType \<times> regex) list" where
  "entries tab = concat (map (\<lambda>(ty, ps). map (Pair ty) ps) tab)"

definition matches :: "string \<Rightarrow> ErrorType \<times> regex \<Rightarrow> bool" where
  "matches t e = (strMatch (snd e) t \<noteq> None)"

text \<open>What detect returns when the given entry is the one that matched.\<close>

definition analysisOf :: "string \<Rightarrow> ErrorType \<times> regex \<Rightarrow> ErrorAnalysis option" where
  "analysisOf t e =
     map_option (\<lambda>m. createAnalysis (fst e) (whole m) t (groups m 1)) (strMatch (snd e) t)"

text \<open>
  The fix a session identifier and an index select: the session exists, has a
  fixes list, and the index is inside it.
\<close>

definition selectedFix :: "engine \<Rightarrow> string \<Rightarrow> int \<Rightarrow> Fix option" where
  "selectedFix st sid i =
     (case sessions st sid of
        None \<Rightarrow> None
      | Some s \<Rightarrow>
          (case fixes s of
             None \<Rightarrow> None
           | Some fs \<Rightarrow> if 0 \<le> i \<and> i < int (length fs) then Some (fs ! nat i) else None))"

text \<open>
  The part of the file pattern after its optional group: \<open>([^():]+):(\d+)\<close>.
\<close>

definition pathLinePattern :: regex where
  "pathLinePattern =
     Seq (Group 1 (Plus (NoneOf ''():''))) (Seq (Lit '':'') (Group 2 (Plus Digit)))"

text \<open>
  The pattern matches at no position inside \<open>pre\<close> of the text \<open>pre @ s\<close>.
\<close>

fun noMatchBefore :: "regex \<Rightarrow> string \<Rightarrow> string \<Rightarrow> bool" where
  "noMatchBefore r [] s = True"
| "noMatchBefore r (x # xs) s =
     (rmatch r (x # xs @ s, Map.empty) = [] \<and> noMatchBefore r xs s)"

text \<open>
  On the first line of the text, no \<open>(\<close> is directly followed by a match of
  \<open>([^():]+):(\d+)\<close>.
\<close>

fun noLaterParen :: "string \<Rightarrow> bool" where
  "noLaterParen [] = True"
| "noLaterParen (x # s) =
     (if isDot x
      then (if x = CHR ''('' then rmatch pathLinePattern (s, Map.empty) = [] else True)
           \<and> noLaterParen s
      else True)"

section \<open>Example inputs\<close>

definition ctxOf :: "string \<Rightarrow> string \<Rightarrow> DebugContext" where
  "ctxOf out err =
     \<lparr>command = ''node app.js'', output = out, error = err,
      workingDirectory = ''/test'', timestamp = 0\<rparr>"

definition mixedText :: string where
  "mixedText = ''zsh: command not found: node'' @ [LF] @ ''SyntaxError: Unexpected token }''"

definition expressText :: string where
  "expressText = ''Error: Cannot find module '' @ [SQ] @ ''express'' @ [SQ]"

definition requestsText :: string where
  "requestsText = ''ModuleNotFoundError: No module named '' @ [SQ] @ ''requests'' @ [SQ]"

definition gitxText :: string where
  "gitxText = ''zsh: command not found: gitx''"

definition deniedText :: string where
  "deniedText = ''bash: ./deploy.sh: Permission denied''"

definition fooFrame :: string where
  "fooFrame = ''at Foo (/a/b/c.ext:42:7)''"

definition frameText :: string where
  "frameText = ''SyntaxError: Unexpected token in JSON at position 5'' @ [LF]
                 @ ''    '' @ fooFrame @ '' (native)'' @ [LF]
                 @ ''    at Bar (/x/y.js:9:1)''"

definition earlierText :: string where
  "earlierText = ''SyntaxError: bad token in x:1'' @ [LF] @ ''    '' @ fooFrame"

definition laterText :: string where
  "laterText = ''TypeError: boom'' @ [LF] @ ''    '' @ fooFrame @ '' (y:5)''"

text \<open>
  Two environments: one with no lock file, where every command succeeds, and
  one with a yarn lock file, where every command fails.
\<close>

definition quietEnv :: env where
  "quietEnv =
     \<lparr>fsAccess = (\<lambda>f. False),
      execAsync = (\<lambda>cmd cwd. None),
      ollamaAnalyzeError = (\<lambda>err cmd cwd. Inr ''Check the spelling of the name.''),
      ollamaGenerateResponse = (\<lambda>prompt. Inr [])\<rparr>"

definition failingEnv :: env where
  "failingEnv =
     \<lparr>fsAccess = (\<lambda>f. f = ''yarn.lock''),
      execAsync = (\<lambda>cmd cwd. Some (''Command failed: '' @ cmd)),
      ollamaAnalyzeError = (\<lambda>err cmd cwd. Inr ''Install the package.''),
      ollamaGenerateResponse = (\<lambda>prompt. Inr [])\<rparr>"

text \<open>The engine after createSession and analyzeError, and after generateFixes.\<close>

definition analysed :: "env \<Rightarrow> string \<Rightarrow> engine" where
  "analysed e t =
     run newEngine [(e, CreateSession ''s1'' 0 (ctxOf [] t)), (e, AnalyzeError ''s1'')]"

definition fixesReady :: "env \<Rightarrow> string \<Rightarrow> engine" where
  "fixesReady e t = run (analysed e t) [(e, GenerateFixes ''s1'')]"

definition applyTwice :: "(env \<times> call) list" where
  "applyTwice =
     [(quietEnv, CreateSession ''s1'' 0 (ctxOf [] gitxText)),
      (quietEnv, AnalyzeError ''s1''),
      (quietEnv, GenerateFixes ''s1''),
      (quietEnv, ApplyFix ''s1'' 0),
      (quietEnv, ApplyFix ''s1'' 0)]"

section \<open>Properties of the classifier\<close>

declare strMatch.simps [simp del]

lemmas table_defs = entries_def patterns_def matches_def syntaxPatterns_def typePatterns_def
  modulePatterns_def runtimePatterns_def permissionPatterns_def commandPatterns_def

lemmas detect_defs = detect_def patterns_def syntaxPatterns_def typePatterns_def
  modulePatterns_def runtimePatterns_def permissionPatterns_def commandPatterns_def
  strMatch.simps createAnalysis_def filePattern_def

lemma createAnalysis_type [simp]: "type (createAnalysis ty msg full d) = ty"
  by (cases ty) (simp_all add: createAnalysis_def Let_def split: option.splits)

lemma createAnalysis_message [simp]: "message (createAnalysis ty msg full d) = msg"
  by (cases ty) (simp_all add: createAnalysis_def Let_def split: option.splits)

lemma createAnalysis_confidence [simp]: "confidence (createAnalysis ty msg full d) = 0.8"
  by (cases ty) (simp_all add: createAnalysis_def Let_def split: option.splits)

lemma scanPatterns_find:
  "scanPatterns ty ps t = Option.bind (find (matches t) (map (Pair ty) ps)) (analysisOf t)"
  by (induction ps) (auto simp: matches_def analysisOf_def split: option.splits)

lemma scanPatterns_None:
  "scanPatterns ty ps t = None \<longleftrightarrow> find (matches t) (map (Pair ty) ps) = None"
  by (induction ps) (auto simp: matches_def split: option.splits)

lemma find_append:
  "find P (xs @ ys) = (case find P xs of None \<Rightarrow> find P ys | Some x \<Rightarrow> Some x)"
  by (induction xs) auto

lemma scanEntries_find:
  "scanEntries tab t = Option.bind (find (matches t) (entries tab)) (analysisOf t)"
proof (induction tab)
  case Nil
  then show ?case by (simp add: entries_def)
next
  case (Cons e tab)
  obtain ty ps where e: "e = (ty, ps)" by (cases e)
  show ?case
  proof (cases "find (matches t) (map (Pair ty) ps)")
    case None
    then have "scanPatterns ty ps t = None" by (simp add: scanPatterns_None)
    with None Cons e show ?thesis
      by (simp add: entries_def find_append)
  next
    case (Some x)
    then have m: "matches t x" by (auto simp: find_Some_iff)
    then obtain m' where "strMatch (snd x) t = Some m'" by (auto simp: matches_def)
    then have "analysisOf t x \<noteq> None" by (simp add: analysisOf_def)
    with Some e show ?thesis
      by (auto simp: entries_def find_append scanPatterns_find split: option.splits)
  qed
qed

lemma hd_splitLF: "splitLF t \<noteq> [] \<and> hd (splitLF t) = takeWhile (\<lambda>c. c \<noteq> LF) t"
  by (induction t) (auto split: list.splits)

lemma strMatch_Nil:
  "strMatch r [] =
     (case rmatch r ([], Map.empty) of
        [] \<Rightarrow> None
      | (s', k) # _ \<Rightarrow> Some \<lparr>whole = [], groups = k\<rparr>)"
  by (simp add: strMatch.simps split: list.splits)

lemma no_match_empty: "e \<in> set (entries patterns) \<Longrightarrow> \<not> matches [] e"
  by (auto simp: table_defs strMatch_Nil)

lemma entries_patterns:
  "entries patterns =
     map (Pair ET_SYNTAX) syntaxPatterns @ map (Pair ET_TYPE) typePatterns
     @ map (Pair ET_MODULE) modulePatterns @ map (Pair ET_RUNTIME) runtimePatterns
     @ map (Pair ET_PERMISSION) permissionPatterns @ map (Pair ET_COMMAND) commandPatterns"
  by (simp add: entries_def patterns_def)

lemma detect_first_match:
  assumes "find (matches (errorTextOf c)) (entries patterns) = Some e"
  shows "detect c = analysisOf (errorTextOf c) e \<and> analysisOf (errorTextOf c) e \<noteq> None"
proof -
  from assms have e: "e \<in> set (entries patterns)" and m: "matches (errorTextOf c) e"
    by (auto simp: find_Some_iff)
  from e m have ne: "errorTextOf c \<noteq> []" using no_match_empty by metis
  from m have a: "analysisOf (errorTextOf c) e \<noteq> None"
    by (auto simp: matches_def analysisOf_def)
  from ne a assms show ?thesis
    by (auto simp: detect_def Let_def scanEntries_find)
qed

lemma detect_no_match:
  assumes "errorTextOf c \<noteq> []" and "find (matches (errorTextOf c)) (entries patterns) = None"
  shows "detect c =
     Some \<lparr>type = ET_UNKNOWN, message = takeWhile (\<lambda>x. x \<noteq> LF) (errorTextOf c),
           file = None, line = None, suggestion = None, confidence = 0.5\<rparr>"
  using assms by (simp add: detect_def Let_def scanEntries_find hd_splitLF)

lemma strMatch_sublist: "strMatch r s = Some m \<Longrightarrow> sublist (whole m) s"
proof (induction r s rule: strMatch.induct)
  case (1 r s)
  show ?case
  proof (cases "rmatch r (s, Map.empty)")
    case Nil
    with "1.prems" obtain x xs where s: "s = x # xs" and "strMatch r xs = Some m"
      by (cases s) (auto simp: strMatch.simps)
    with Nil "1.IH" have "sublist (whole m) xs" by simp
    with s show ?thesis by (simp add: sublist_Cons_right)
  next
    case (Cons st rest)
    obtain s' k where "st = (s', k)" by (cases st)
    with Cons "1.prems" have "whole m = take (length s - length s') s"
      by (auto simp: strMatch.simps)
    then show ?thesis
      by (metis prefix_imp_sublist take_is_prefix)
  qed
qed

text \<open>
  C10: when the captured stderr is not empty, detect reads the stderr text
  only: two contexts with the same non-empty stderr get the same result,
  whatever their stdout; the text examined is the stderr.
\<close>

theorem detect_depends_on_stderr_only:
  assumes "error c1 = error c2" and "error c1 \<noteq> []"
  shows "detect c1 = detect c2 \<and> errorTextOf c1 = error c1"
  using assms by (simp add: detect_def errorTextOf_def)

theorem detect_depends_on_stderr_only_witness:
  "detect (ctxOf ''building...'' ''TypeError: x is not a function'')
     = detect (ctxOf ''Permission denied'' ''TypeError: x is not a function'')"
  using detect_depends_on_stderr_only
    [of "ctxOf ''building...'' ''TypeError: x is not a function''"
        "ctxOf ''Permission denied'' ''TypeError: x is not a function''"]
  by (simp add: ctxOf_def)

text \<open>
  C6: for a non-empty error-or-output text that no pattern of the table
  matches, detect returns category unknown, confidence 0.5, the text up to its
  first line feed as message, and no suggestion, file or line.
\<close>

theorem detect_unknown:
  assumes "errorTextOf c = t" and "t \<noteq> []"
    and "\<forall>e \<in> set (entries patterns). \<not> matches t e"
  shows "detect c =
     Some \<lparr>type = ET_UNKNOWN, message = takeWhile (\<lambda>x. x \<noteq> LF) t,
           file = None, line = None, suggestion = None, confidence = 0.5\<rparr>"
proof -
  from assms(3) have "find (matches t) (entries patterns) = None"
    by (simp add: find_None_iff)
  with assms(1,2) show ?thesis using detect_no_match [of c] by simp
qed

theorem detect_unknown_witness:
  "detect (ctxOf [] (''Some random error occurred'' @ [LF] @ ''second line'')) =
     Some \<lparr>type = ET_UNKNOWN, message = ''Some random error occurred'',
           file = None, line = None, suggestion = None, confidence = 0.5\<rparr>"
proof -
  let ?t = "''Some random error occurred'' @ [LF] @ ''second line''"
  have t: "errorTextOf (ctxOf [] ?t) = ?t"
    by (simp add: errorTextOf_def ctxOf_def)
  have n: "\<forall>e \<in> set (entries patterns). \<not> matches ?t e"
    by (simp add: table_defs strMatch.simps)
  show ?thesis using detect_unknown [OF t _ n] by simp
qed

text \<open>
  C3: detect visits the categories in the order syntax, type, module, runtime,
  permission, command and each category's patterns in declaration order; the
  first entry that matches decides the result. In particular a text matched by
  a syntax pattern and by a command pattern is classified as syntax.
\<close>

theorem detect_priority_order:
  "entries patterns =
     map (Pair ET_SYNTAX) syntaxPatterns @ map (Pair ET_TYPE) typePatterns
     @ map (Pair ET_MODULE) modulePatterns @ map (Pair ET_RUNTIME) runtimePatterns
     @ map (Pair ET_PERMISSION) permissionPatterns @ map (Pair ET_COMMAND) commandPatterns
   \<and> (\<forall>e. find (matches (errorTextOf c)) (entries patterns) = Some e
          \<longrightarrow> detect c = analysisOf (errorTextOf c) e)
   \<and> (\<forall>p q. p \<in> set syntaxPatterns \<and> strMatch p (errorTextOf c) \<noteq> None
            \<and> q \<in> set commandPatterns \<and> strMatch q (errorTextOf c) \<noteq> None
          \<longrightarrow> (\<exists>a. detect c = Some a \<and> type a = ET_SYNTAX))"
proof (intro conjI allI impI)
  show "entries patterns =
     map (Pair ET_SYNTAX) syntaxPatterns @ map (Pair ET_TYPE) typePatterns
     @ map (Pair ET_MODULE) modulePatterns @ map (Pair ET_RUNTIME) runtimePatterns
     @ map (Pair ET_PERMISSION) permissionPatterns @ map (Pair ET_COMMAND) commandPatterns"
    by (rule entries_patterns)
next
  fix e assume "find (matches (errorTextOf c)) (entries patterns) = Some e"
  then show "detect c = analysisOf (errorTextOf c) e"
    using detect_first_match by blast
next
  fix p q
  assume h: "p \<in> set syntaxPatterns \<and> strMatch p (errorTextOf c) \<noteq> None
            \<and> q \<in> set commandPatterns \<and> strMatch q (errorTextOf c) \<noteq> None"
  let ?t = "errorTextOf c"
  from h have "\<exists>x \<in> set (map (Pair ET_SYNTAX) syntaxPatterns). matches ?t x"
    by (auto simp: matches_def)
  then obtain e where f: "find (matches ?t) (map (Pair ET_SYNTAX) syntaxPatterns) = Some e"
    by (cases "find (matches ?t) (map (Pair ET_SYNTAX) syntaxPatterns)")
       (auto simp: find_None_iff)
  then have "e \<in> set (map (Pair ET_SYNTAX) syntaxPatterns)"
    by (auto simp: find_Some_iff)
  then have ty: "fst e = ET_SYNTAX" by auto
  from f have "find (matches ?t) (entries patterns) = Some e"
    by (simp add: entries_patterns find_append)
  then have "detect c = analysisOf ?t e" "analysisOf ?t e \<noteq> None"
    using detect_first_match by blast+
  with ty show "\<exists>a. detect c = Some a \<and> type a = ET_SYNTAX"
    by (auto simp: analysisOf_def)
qed

theorem detect_priority_order_witness:
  "strMatch (capture1 ''command not found: '') mixedText \<noteq> None
   \<and> strMatch (capture1 ''SyntaxError: '') mixedText \<noteq> None
   \<and> map_option type (detect (ctxOf [] mixedText)) = Some ET_SYNTAX"
proof -
  let ?c = "ctxOf [] mixedText"
  have t: "errorTextOf ?c = mixedText"
    by (simp add: errorTextOf_def ctxOf_def mixedText_def)
  have p: "capture1 ''SyntaxError: '' \<in> set syntaxPatterns"
    by (simp add: syntaxPatterns_def)
  have q: "capture1 ''command not found: '' \<in> set commandPatterns"
    by (simp add: commandPatterns_def)
  have pm: "strMatch (capture1 ''SyntaxError: '') mixedText \<noteq> None"
    by (simp add: mixedText_def strMatch.simps)
  have qm: "strMatch (capture1 ''command not found: '') mixedText \<noteq> None"
    by (simp add: mixedText_def strMatch.simps)
  from detect_priority_order [of ?c] t p q pm qm
  obtain a where "detect ?c = Some a" and "type a = ET_SYNTAX"
    by metis
  with pm qm show ?thesis by simp
qed

section \<open>Properties of the engine\<close>

lemma applyCalls_createSession [simp]:
  "applyCalls (snd (createSession r n c st)) = applyCalls st"
  by (simp add: createSession_def)

lemma applyCalls_analyzeError [simp]:
  "applyCalls (snd (analyzeError e sid st)) = applyCalls st"
  by (simp add: analyzeError_def Let_def split: option.splits sum.splits)

lemma applyCalls_generateFixes [simp]:
  "applyCalls (snd (generateFixes e sid st)) = applyCalls st"
  by (simp add: generateFixes_def Let_def split: option.splits sum.splits ErrorType.splits)

lemma applyCalls_applyFix:
  "applyCalls (snd (applyFix e sid j st))
     = applyCalls st @ (case selectedFix st sid j of None \<Rightarrow> [] | Some f \<Rightarrow> [(sid, nat j)])"
  by (auto simp: applyFix_def selectedFix_def Let_def
      split: option.splits sum.splits prod.splits)

lemma selectedFix_nonneg: "selectedFix st sid j = Some f \<Longrightarrow> 0 \<le> j"
  by (simp add: selectedFix_def split: option.splits if_splits)

lemma count_step:
  "count_list (applyCalls (step st ec)) (sid, i)
     \<le> count_list (applyCalls st) (sid, i) + (if snd ec = ApplyFix sid (int i) then 1 else 0)"
proof (cases ec)
  case (Pair e c)
  then show ?thesis
    by (cases c) (auto simp: applyCalls_applyFix split: option.splits dest: selectedFix_nonneg)
qed

lemma count_run:
  "count_list (applyCalls (run st cs)) (sid, i)
     \<le> count_list (applyCalls st) (sid, i)
        + length (filter (\<lambda>ec. snd ec = ApplyFix sid (int i)) cs)"
proof (induction cs arbitrary: st)
  case Nil
  then show ?case by (simp add: run_def)
next
  case (Cons ec cs)
  have "count_list (applyCalls (run st (ec # cs))) (sid, i)
          = count_list (applyCalls (run (step st ec) cs)) (sid, i)"
    by (simp add: run_def)
  also have "\<dots> \<le> count_list (applyCalls (step st ec)) (sid, i)
        + length (filter (\<lambda>ec. snd ec = ApplyFix sid (int i)) cs)"
    by (rule Cons.IH)
  also have "\<dots> \<le> count_list (applyCalls st) (sid, i)
        + (if snd ec = ApplyFix sid (int i) then 1 else 0)
        + length (filter (\<lambda>ec. snd ec = ApplyFix sid (int i)) cs)"
    using count_step [of st ec sid i] by simp
  also have "\<dots> = count_list (applyCalls st) (sid, i)
        + length (filter (\<lambda>ec. snd ec = ApplyFix sid (int i)) (ec # cs))"
    by simp
  finally show ?case .
qed

lemma effects_createSession [simp]:
  "effects (snd (createSession r n c st)) = effects st"
  by (simp add: createSession_def)

lemma effects_analyzeError [simp]:
  "effects (snd (analyzeError e sid st)) = effects st"
  by (simp add: analyzeError_def Let_def split: option.splits sum.splits)

lemma effects_generateFixes [simp]:
  "effects (snd (generateFixes e sid st)) = effects st"
  by (simp add: generateFixes_def Let_def split: option.splits sum.splits ErrorType.splits)

lemma applyFix_not_selected:
  "selectedFix st sid j = None \<Longrightarrow> applyFix e sid j st = (Inl FixNotFound, st)"
  by (auto simp: applyFix_def selectedFix_def split: option.splits if_splits)

lemma applyFix_selected:
  assumes "selectedFix st sid j = Some f"
  shows "fst (applyFix e sid j st) = fst (runAction e (fixApply f))
         \<and> effects (snd (applyFix e sid j st)) = effects st @ snd (runAction e (fixApply f))
         \<and> applyCalls (snd (applyFix e sid j st)) = applyCalls st @ [(sid, nat j)]"
proof -
  from assms obtain s fs where s: "sessions st sid = Some s" and fs: "fixes s = Some fs"
    and j: "0 \<le> j" "j < int (length fs)" and f: "f = fs ! nat j"
    by (auto simp: selectedFix_def split: option.splits if_splits)
  obtain r es where r: "runAction e (fixApply (fs ! nat j)) = (r, es)"
    by (cases "runAction e (fixApply (fs ! nat j))")
  from s fs j r f show ?thesis
    by (cases r) (simp_all add: applyFix_def Let_def)
qed

text \<open>
  C1, as the code has it. A call of applyFix that selects no fix fails with
  \<open>Fix not found\<close> and changes nothing. A call that selects a fix runs the
  deferred operation of that fix exactly once: its outcome is the outcome of
  the call, its effects are what the call adds to the trace of effects, and
  the call is recorded once. createSession, analyzeError and generateFixes run
  no deferred operation. So over any sequence of calls the operation of fix
  \<open>i\<close> of session \<open>sid\<close> has run at most as often as applyFix was called
  for it. The orchestrator keeps no guard against applying a fix again.
\<close>
theorem applyFix_runs_once_per_call:
  "(case selectedFix st sid j of
      None \<Rightarrow> applyFix e sid j st = (Inl FixNotFound, st)
    | Some f \<Rightarrow>
        fst (applyFix e sid j st) = fst (runAction e (fixApply f))
        \<and> effects (snd (applyFix e sid j st)) = effects st @ snd (runAction e (fixApply f))
        \<and> applyCalls (snd (applyFix e sid j st)) = applyCalls st @ [(sid, nat j)])
   \<and> effects (snd (createSession r n c st)) = effects st
   \<and> applyCalls (snd (createSession r n c st)) = applyCalls st
   \<and> effects (snd (analyzeError e sid st)) = effects st
   \<and> applyCalls (snd (analyzeError e sid st)) = applyCalls st
   \<and> effects (snd (generateFixes e sid st)) = effects st
   \<and> applyCalls (snd (generateFixes e sid st)) = applyCalls st
   \<and> count_list (applyCalls (run st cs)) (sid, i)
       \<le> count_list (applyCalls st) (sid, i)
          + length (filter (\<lambda>ec. snd ec = ApplyFix sid (int i)) cs)"
proof -
  have "case selectedFix st sid j of
      None \<Rightarrow> applyFix e sid j st = (Inl FixNotFound, st)
    | Some f \<Rightarrow>
        fst (applyFix e sid j st) = fst (runAction e (fixApply f))
        \<and> effects (snd (applyFix e sid j st)) = effects st @ snd (runAction e (fixApply f))
        \<and> applyCalls (snd (applyFix e sid j st)) = applyCalls st @ [(sid, nat j)]"
  proof (cases "selectedFix st sid j")
    case None
    then show ?thesis by (simp add: applyFix_not_selected)
  next
    case (Some f)
    then show ?thesis using applyFix_selected [OF Some, of e] by simp
  qed
  then show ?thesis using count_run [of st cs sid i] by simp
qed

lemma detect_gitx:
  "detect (ctxOf [] gitxText) =
     Some \<lparr>type = ET_COMMAND, message = ''command not found: gitx'', file = None, line = None,
           suggestion = Some (''Command not found: gitx. Check if it'' @ [SQ]
                              @ ''s installed or in PATH.''),
           confidence = 0.8\<rparr>"
  by (simp add: errorTextOf_def ctxOf_def gitxText_def detect_defs)

lemma ctxOf_fields [simp]:
  "command (ctxOf out err) = ''node app.js''"
  "workingDirectory (ctxOf out err) = ''/test''"
  "error (ctxOf out err) = err"
  "output (ctxOf out err) = out"
  by (simp_all add: ctxOf_def)

lemma errorTextOf_ctxOf [simp]: "errorTextOf (ctxOf [] err) = err"
  by (simp add: errorTextOf_def)

lemmas engine_defs = createSession_def analyzeError_def generateFixes_def applyFix_def
  newEngine_def run_def Let_def

lemma run_gitx_ready:
  "run newEngine (take 3 applyTwice) =
     \<lparr>sessions = [''s1'' \<mapsto>
        \<lparr>sessionId = ''s1'', startTime = 0, sessionContext = ctxOf [] gitxText,
         analysis = Some \<lparr>type = ET_COMMAND, message = ''command not found: gitx'',
                          file = None, line = None,
                          suggestion = Some ''Check the spelling of the name.'',
                          confidence = 0.8\<rparr>,
         fixes = Some [\<lparr>fixType = FT_COMMAND, description = ''Install or add gitx to PATH'',
                        fixConfidence = 0.8, fixApply = PrintAdvice ''gitx''\<rparr>],
         applied = False\<rparr>],
      effects = [], applyCalls = []\<rparr>"
  by (simp add: applyTwice_def engine_defs detect_gitx quietEnv_def createCommandFix_def
      strMatch.simps)

text \<open>
  C1 fails as stated: after createSession, analyzeError and generateFixes, two
  calls of applyFix with the same session identifier and index run the same
  deferred operation twice; its advice is printed twice.
\<close>
theorem applyFix_twice_runs_twice:
  "count_list (applyCalls (run newEngine applyTwice)) (''s1'', 0) = 2
   \<and> effects (run newEngine applyTwice)
       = [ConsoleLog (''Please install gitx or ensure it'' @ [SQ] @ ''s in your PATH''),
          ConsoleLog (''Please install gitx or ensure it'' @ [SQ] @ ''s in your PATH'')]"
proof -
  have "run newEngine applyTwice
          = run (run newEngine (take 3 applyTwice)) (drop 3 applyTwice)"
    unfolding run_def by (metis append_take_drop_id foldl_append)
  then show ?thesis
    by (simp add: run_gitx_ready) (simp add: applyTwice_def run_def applyFix_def Let_def)
qed

theorem applyFix_runs_once_per_call_witness:
  "fst (applyFix quietEnv ''s1'' 0 (run newEngine (take 3 applyTwice))) = Inr ()
   \<and> effects (snd (applyFix quietEnv ''s1'' 0 (run newEngine (take 3 applyTwice))))
       = [ConsoleLog (''Please install gitx or ensure it'' @ [SQ] @ ''s in your PATH'')]
   \<and> applyFix quietEnv ''s1'' 1 (run newEngine (take 3 applyTwice))
       = (Inl FixNotFound, run newEngine (take 3 applyTwice))
   \<and> count_list (applyCalls (run newEngine applyTwice)) (''s1'', 0) \<le> 2"
proof -
  let ?st = "run newEngine (take 3 applyTwice)"
  have 0: "selectedFix ?st ''s1'' 0
             = Some \<lparr>fixType = FT_COMMAND, description = ''Install or add gitx to PATH'',
                     fixConfidence = 0.8, fixApply = PrintAdvice ''gitx''\<rparr>"
    by (simp add: run_gitx_ready selectedFix_def)
  have 1: "selectedFix ?st ''s1'' 1 = None"
    by (simp add: run_gitx_ready selectedFix_def)
  from applyFix_runs_once_per_call [where st = ?st and sid = "''s1''" and j = 0 and e = quietEnv] 0
  have a: "fst (applyFix quietEnv ''s1'' 0 ?st) = Inr ()
           \<and> effects (snd (applyFix quietEnv ''s1'' 0 ?st))
               = [ConsoleLog (''Please install gitx or ensure it'' @ [SQ] @ ''s in your PATH'')]"
    by (simp add: run_gitx_ready)
  from applyFix_runs_once_per_call [where st = ?st and sid = "''s1''" and j = 1 and e = quietEnv] 1
  have b: "applyFix quietEnv ''s1'' 1 ?st = (Inl FixNotFound, ?st)"
    by simp
  from applyFix_runs_once_per_call
         [where st = newEngine and sid = "''s1''" and j = 0 and e = quietEnv
            and cs = applyTwice and i = 0]
  have c: "count_list (applyCalls (run newEngine applyTwice)) (''s1'', 0) \<le> 2"
    by (simp add: applyTwice_def newEngine_def)
  from a b c show ?thesis by blast
qed

lemma detect_requests:
  "detect (ctxOf [] requestsText) =
     Some \<lparr>type = ET_MODULE, message = ''No module named '' @ [SQ] @ ''requests'' @ [SQ],
           file = None, line = None,
           suggestion = Some ''Install missing module: requests'', confidence = 0.8\<rparr>"
  by (simp add: requestsText_def detect_defs)

lemma detect_express:
  "detect (ctxOf [] expressText) =
     Some \<lparr>type = ET_MODULE, message = ''Cannot find module '' @ [SQ] @ ''express'' @ [SQ],
           file = None, line = None,
           suggestion = Some ''Install missing module: express'', confidence = 0.8\<rparr>"
  by (simp add: expressText_def detect_defs)

lemma detect_denied:
  "detect (ctxOf [] deniedText) =
     Some \<lparr>type = ET_PERMISSION, message = ''Permission denied'',
           file = None, line = None,
           suggestion = Some ''Try running with elevated permissions or check file ownership.'',
           confidence = 0.8\<rparr>"
  by (simp add: deniedText_def detect_defs)

text \<open>
  C2 at the stderr text \<open>ModuleNotFoundError: No module named 'requests'\<close>:
  detect classifies it as module with the message
  \<open>No module named 'requests'\<close>, and generateFixes returns one fix of kind
  install_package with confidence 0.9 whose description is
  \<open>Install missing module: unknown\<close>; applying it runs
  \<open>npm add unknown\<close>. The pattern of createModuleInstallFix knows two of
  the four phrasings of the module patterns of the detector.
\<close>
theorem generateFixes_module_unknown:
  "map_option message (detect (ctxOf [] requestsText))
      = Some (''No module named '' @ [SQ] @ ''requests'' @ [SQ])
   \<and> map_option type (detect (ctxOf [] requestsText)) = Some ET_MODULE
   \<and> fst (generateFixes quietEnv ''s1'' (analysed quietEnv requestsText))
      = Inr [\<lparr>fixType = FT_INSTALL_PACKAGE,
               description = ''Install missing module: unknown'',
               fixConfidence = 0.9, fixApply = InstallModule ''unknown''\<rparr>]
   \<and> runAction quietEnv (InstallModule ''unknown'')
      = (Inr (), [FsAccess ''bun.lockb'', FsAccess ''pnpm-lock.yaml'', FsAccess ''yarn.lock'',
                  FsAccess ''package-lock.json'', Exec ''npm add unknown'' None])"
  by (simp add: detect_requests analysed_def engine_defs quietEnv_def
      createModuleInstallFix_def moduleNamePattern_def strMatch.simps
      detectPackageManager_def managers_def runExec_def)

text \<open>
  C5: when analyzeError returns a diagnosis, that diagnosis is what detect
  returned with the suggestion replaced by the response of the Ollama service;
  its confidence is the one detect gave; and it is the analysis stored on the
  session.
\<close>
theorem analyzeError_suggestion:
  assumes "analyzeError e sid st = (Inr (Some a), st')"
  shows "\<exists>session d resp.
           sessions st sid = Some session
         \<and> detect (sessionContext session) = Some d
         \<and> ollamaAnalyzeError e (errorTextOf (sessionContext session))
              (command (sessionContext session))
              (workingDirectory (sessionContext session)) = Inr resp
         \<and> a = d\<lparr>suggestion := Some resp\<rparr>
         \<and> suggestion a = Some resp
         \<and> confidence a = confidence d
         \<and> Option.bind (sessions st' sid) analysis = Some a"
  using assms
  by (auto simp: analyzeError_def Let_def split: option.splits sum.splits)

theorem analyzeError_suggestion_witness:
  "Option.bind (sessions (analysed quietEnv expressText) ''s1'') analysis
     = Some \<lparr>type = ET_MODULE, message = ''Cannot find module '' @ [SQ] @ ''express'' @ [SQ],
             file = None, line = None,
             suggestion = Some ''Check the spelling of the name.'', confidence = 0.8\<rparr>"
proof -
  let ?st = "snd (createSession ''s1'' 0 (ctxOf [] expressText) newEngine)"
  let ?a = "\<lparr>type = ET_MODULE, message = ''Cannot find module '' @ [SQ] @ ''express'' @ [SQ],
             file = None, line = None,
             suggestion = Some ''Check the spelling of the name.'', confidence = 0.8\<rparr>"
  have f: "fst (analyzeError quietEnv ''s1'' ?st) = Inr (Some ?a)"
    by (simp add: engine_defs detect_express quietEnv_def)
  have "analyzeError quietEnv ''s1'' ?st
          = (Inr (Some ?a), snd (analyzeError quietEnv ''s1'' ?st))"
    using f by (metis prod.collapse)
  from analyzeError_suggestion [OF this]
  have "Option.bind (sessions (snd (analyzeError quietEnv ''s1'' ?st)) ''s1'') analysis = Some ?a"
    by blast
  then show ?thesis by (simp add: analysed_def run_def)
qed

text \<open>
  C4: applyFix fails with \<open>Fix not found\<close> and leaves the engine as it was
  when the session identifier is unknown, when the session has no fixes list,
  and when the index is negative or not below the length of the list. When the
  deferred operation of the selected fix fails, applyFix fails with the same
  error and the session map is unchanged; in particular an applied flag that
  was false is still false.
\<close>
theorem applyFix_failures:
  "(sessions st sid = None \<longrightarrow> applyFix e sid i st = (Inl FixNotFound, st))
   \<and> (\<forall>s. sessions st sid = Some s \<and> fixes s = None
          \<longrightarrow> applyFix e sid i st = (Inl FixNotFound, st))
   \<and> (\<forall>s fs. sessions st sid = Some s \<and> fixes s = Some fs
            \<and> (i < 0 \<or> int (length fs) \<le> i)
          \<longrightarrow> applyFix e sid i st = (Inl FixNotFound, st))
   \<and> (\<forall>s fs err. sessions st sid = Some s \<and> fixes s = Some fs
            \<and> 0 \<le> i \<and> i < int (length fs)
            \<and> fst (runAction e (fixApply (fs ! nat i))) = Inl err
          \<longrightarrow> fst (applyFix e sid i st) = Inl err
              \<and> sessions (snd (applyFix e sid i st)) = sessions st
              \<and> (\<not> applied s
                   \<longrightarrow> map_option applied (sessions (snd (applyFix e sid i st)) sid)
                        = Some False))"
  by (auto simp: applyFix_def Let_def split: prod.splits)

lemma analysed_express:
  "analysed failingEnv expressText =
     \<lparr>sessions = [''s1'' \<mapsto>
        \<lparr>sessionId = ''s1'', startTime = 0, sessionContext = ctxOf [] expressText,
         analysis = Some \<lparr>type = ET_MODULE,
                          message = ''Cannot find module '' @ [SQ] @ ''express'' @ [SQ],
                          file = None, line = None,
                          suggestion = Some ''Install the package.'',
                          confidence = 0.8\<rparr>,
         fixes = None, applied = False\<rparr>],
      effects = [], applyCalls = []\<rparr>"
  by (simp add: analysed_def engine_defs detect_express failingEnv_def)

lemma fixesReady_express:
  "fixesReady failingEnv expressText =
     \<lparr>sessions = [''s1'' \<mapsto>
        \<lparr>sessionId = ''s1'', startTime = 0, sessionContext = ctxOf [] expressText,
         analysis = Some \<lparr>type = ET_MODULE,
                          message = ''Cannot find module '' @ [SQ] @ ''express'' @ [SQ],
                          file = None, line = None,
                          suggestion = Some ''Install the package.'',
                          confidence = 0.8\<rparr>,
         fixes = Some [\<lparr>fixType = FT_INSTALL_PACKAGE,
                        description = ''Install missing module: express'',
                        fixConfidence = 0.9, fixApply = InstallModule ''express''\<rparr>],
         applied = False\<rparr>],
      effects = [], applyCalls = []\<rparr>"
  by (simp add: fixesReady_def analysed_express)
     (simp add: engine_defs createModuleInstallFix_def moduleNamePattern_def strMatch.simps)

lemma runAction_express_fails:
  "runAction failingEnv (InstallModule ''express'')
     = (Inl (Thrown ''Command failed: yarn add express''),
        [FsAccess ''bun.lockb'', FsAccess ''pnpm-lock.yaml'', FsAccess ''yarn.lock'',
         Exec ''yarn add express'' None])"
  by (simp add: failingEnv_def detectPackageManager_def managers_def runExec_def)

theorem applyFix_failures_witness:
  "applyFix failingEnv ''s2'' 0 (fixesReady failingEnv expressText)
     = (Inl FixNotFound, fixesReady failingEnv expressText)
   \<and> applyFix failingEnv ''s1'' 0 (analysed failingEnv expressText)
     = (Inl FixNotFound, analysed failingEnv expressText)
   \<and> applyFix failingEnv ''s1'' 1 (fixesReady failingEnv expressText)
     = (Inl FixNotFound, fixesReady failingEnv expressText)
   \<and> applyFix failingEnv ''s1'' (- 1) (fixesReady failingEnv expressText)
     = (Inl FixNotFound, fixesReady failingEnv expressText)
   \<and> fst (applyFix failingEnv ''s1'' 0 (fixesReady failingEnv expressText))
     = Inl (Thrown ''Command failed: yarn add express'')
   \<and> map_option applied
        (sessions (snd (applyFix failingEnv ''s1'' 0 (fixesReady failingEnv expressText))) ''s1'')
     = Some False"
proof -
  let ?ready = "fixesReady failingEnv expressText"
  let ?an = "analysed failingEnv expressText"
  note r = fixesReady_express
  note a = analysed_express
  have 1: "applyFix failingEnv ''s2'' 0 ?ready = (Inl FixNotFound, ?ready)"
    using applyFix_failures [of ?ready "''s2''" failingEnv 0] by (simp add: r)
  have 2: "applyFix failingEnv ''s1'' 0 ?an = (Inl FixNotFound, ?an)"
    using applyFix_failures [of ?an "''s1''" failingEnv 0] by (simp add: a)
  have 3: "applyFix failingEnv ''s1'' 1 ?ready = (Inl FixNotFound, ?ready)"
    using applyFix_failures [of ?ready "''s1''" failingEnv 1] by (simp add: r)
  have 4: "applyFix failingEnv ''s1'' (- 1) ?ready = (Inl FixNotFound, ?ready)"
    using applyFix_failures [of ?ready "''s1''" failingEnv "- 1"] by (simp add: r)
  have 5: "fst (applyFix failingEnv ''s1'' 0 ?ready)
             = Inl (Thrown ''Command failed: yarn add express'')
           \<and> map_option applied (sessions (snd (applyFix failingEnv ''s1'' 0 ?ready)) ''s1'')
             = Some False"
    using applyFix_failures [of ?ready "''s1''" failingEnv 0]
    by (simp add: r runAction_express_fails del: runAction.simps)
  from 1 2 3 4 5 show ?thesis by blast
qed

text \<open>
  C9: for a session whose analysis has category permission and no file,
  generateFixes returns one fix of kind permission_change with confidence 0.7;
  running its deferred operation succeeds in every environment and has no
  effect, and applyFix on it succeeds and leaves the trace of effects as it was.
\<close>
theorem permission_fix_without_file:
  assumes "sessions st sid = Some s" and "analysis s = Some a"
    and "type a = ET_PERMISSION" and "file a = None"
  shows "\<exists>f st'. generateFixes e sid st = (Inr [f], st')
           \<and> fixType f = FT_PERMISSION_CHANGE \<and> fixConfidence f = 0.7
           \<and> (\<forall>e'. runAction e' (fixApply f) = (Inr (), []))
           \<and> (\<forall>e'. fst (applyFix e' sid 0 st') = Inr ()
                  \<and> effects (snd (applyFix e' sid 0 st')) = effects st)"
  using assms
  by (simp add: generateFixes_def createPermissionFix_def applyFix_def Let_def)

lemma analysed_denied:
  "analysed failingEnv deniedText =
     \<lparr>sessions = [''s1'' \<mapsto>
        \<lparr>sessionId = ''s1'', startTime = 0, sessionContext = ctxOf [] deniedText,
         analysis = Some \<lparr>type = ET_PERMISSION, message = ''Permission denied'',
                          file = None, line = None,
                          suggestion = Some ''Install the package.'',
                          confidence = 0.8\<rparr>,
         fixes = None, applied = False\<rparr>],
      effects = [], applyCalls = []\<rparr>"
  by (simp add: analysed_def engine_defs detect_denied failingEnv_def)

theorem permission_fix_without_file_witness:
  "map_option (map fixType) (fixes (the (sessions (fixesReady failingEnv deniedText) ''s1'')))
     = Some [FT_PERMISSION_CHANGE]
   \<and> fst (applyFix failingEnv ''s1'' 0 (fixesReady failingEnv deniedText)) = Inr ()
   \<and> effects (snd (applyFix failingEnv ''s1'' 0 (fixesReady failingEnv deniedText))) = []"
proof -
  let ?an = "analysed failingEnv deniedText"
  let ?s = "\<lparr>sessionId = ''s1'', startTime = 0, sessionContext = ctxOf [] deniedText,
         analysis = Some \<lparr>type = ET_PERMISSION, message = ''Permission denied'',
                          file = None, line = None,
                          suggestion = Some ''Install the package.'',
                          confidence = 0.8\<rparr>,
         fixes = None, applied = False\<rparr>"
  have s: "sessions ?an ''s1'' = Some ?s" by (simp add: analysed_denied)
  from permission_fix_without_file [OF s, of _ failingEnv]
  obtain f st' where g: "generateFixes failingEnv ''s1'' ?an = (Inr [f], st')"
    and k: "fixType f = FT_PERMISSION_CHANGE"
    and ap: "fst (applyFix failingEnv ''s1'' 0 st') = Inr ()"
            "effects (snd (applyFix failingEnv ''s1'' 0 st')) = effects ?an"
    by auto
  from g have st': "fixesReady failingEnv deniedText = st'"
    by (simp add: fixesReady_def run_def)
  from g have "sessions st' ''s1'' = Some (?s\<lparr>fixes := Some [f]\<rparr>)"
    by (auto simp: generateFixes_def s Let_def createPermissionFix_def)
  with st' k ap show ?thesis by (simp add: analysed_denied)
qed

section \<open>The file pattern of createAnalysis\<close>

text \<open>
  What the matcher tries first on a text of a known shape: a greedy run over a
  character class takes the whole run, and \<open>.*\<close> followed by \<open>(\<close>
  stops at the last parenthesis of the line after which the rest of the
  pattern matches.
\<close>

lemma seq_head:
  "rmatch a st = x # xs \<Longrightarrow> rmatch b x = y # ys \<Longrightarrow> \<exists>zs. rmatch (Seq a b) st = y # zs"
  by simp

lemma star_class_Nil:
  assumes cls: "\<And>st. rmatch r st = oneChar P st"
  shows "rmatch (Star r) ([], k) = [([], k)]"
  by (simp add: cls)

lemma star_class_Cons:
  assumes cls: "\<And>st. rmatch r st = oneChar P st"
  shows "rmatch (Star r) (x # s, k)
           = (if P x then rmatch (Star r) (s, k) @ [(x # s, k)] else [(x # s, k)])"
  by (simp add: cls del: rmatch.simps(8)) (simp add: rmatch.simps(8) [of r "x # s" k] cls)

lemma star_class_head:
  assumes cls: "\<And>st. rmatch r st = oneChar P st"
  shows "\<forall>c \<in> set u. P c \<Longrightarrow> v = [] \<or> \<not> P (hd v)
         \<Longrightarrow> \<exists>zs. rmatch (Star r) (u @ v, k) = (v, k) # zs"
proof (induction u)
  case Nil
  then show ?case
    by (cases v) (simp_all add: star_class_Nil [OF cls] star_class_Cons [OF cls]
        del: rmatch.simps(8))
next
  case (Cons x u)
  then obtain zs where "rmatch (Star r) (u @ v, k) = (v, k) # zs" by auto
  with Cons.prems show ?case
    by (simp add: star_class_Cons [OF cls] del: rmatch.simps(8))
qed

lemma plus_class_head:
  assumes cls: "\<And>st. rmatch r st = oneChar P st"
    and "u \<noteq> []" and "\<forall>c \<in> set u. P c" and "v = [] \<or> \<not> P (hd v)"
  shows "\<exists>zs. rmatch (Plus r) (u @ v, k) = (v, k) # zs"
proof -
  from assms(2) obtain x u' where u: "u = x # u'" by (cases u) auto
  with assms(3) have "\<forall>c \<in> set u'. P c" and px: "P x" by auto
  with assms(4) obtain zs where "rmatch (Star r) (u' @ v, k) = (v, k) # zs"
    using star_class_head [OF cls] by blast
  with px u show ?thesis by (simp add: cls del: rmatch.simps(8))
qed

lemma group_head:
  "rmatch a (s, k) = (s', k') # zs
   \<Longrightarrow> \<exists>ys. rmatch (Group i a) (s, k) = (s', k'(i \<mapsto> take (length s - length s') s)) # ys"
  by simp

lemma dots_paren_Cons:
  "rmatch (Seq (Star Dot) (Lit ''('')) (x # s, k)
     = (if isDot x then rmatch (Seq (Star Dot) (Lit ''('')) (s, k) else [])
       @ (if x = CHR ''('' then [(s, k)] else [])"
  by (simp add: star_class_Cons [of Dot isDot] del: rmatch.simps(8) isDot.simps)

lemma dots_paren_Nil: "rmatch (Seq (Star Dot) (Lit ''('')) ([], k) = []"
proof -
  have "rmatch (Star Dot) ([], k) = [([], k)]"
    by (rule star_class_Nil) simp
  then show ?thesis by (simp del: rmatch.simps(8))
qed

lemma dots_paren_shorter:
  "(s', k') \<in> set (rmatch (Seq (Star Dot) (Lit ''('')) (s, k)) \<Longrightarrow> length s' < length s"
proof (induction s)
  case Nil
  then show ?case by (simp only: dots_paren_Nil) simp
next
  case (Cons x s)
  from Cons.prems
  have "(s', k') \<in> set (if isDot x then rmatch (Seq (Star Dot) (Lit ''('')) (s, k) else [])
        \<or> (s', k') \<in> set (if x = CHR ''('' then [(s, k)] else [])"
    by (simp only: dots_paren_Cons set_append Un_iff)
  then show ?case
  proof
    assume "(s', k') \<in> set (if isDot x then rmatch (Seq (Star Dot) (Lit ''('')) (s, k) else [])"
    then have "(s', k') \<in> set (rmatch (Seq (Star Dot) (Lit ''('')) (s, k))"
      by (cases "isDot x") (simp_all del: rmatch.simps isDot.simps)
    then have "length s' < length s" by (rule Cons.IH)
    then show ?thesis by simp
  next
    assume "(s', k') \<in> set (if x = CHR ''('' then [(s, k)] else [])"
    then show ?thesis by (cases "x = CHR ''(''") simp_all
  qed
qed

lemma opt_dots_paren:
  "rmatch (Opt (Seq (Star Dot) (Lit ''(''))) (s, k)
     = rmatch (Seq (Star Dot) (Lit ''('')) (s, k) @ [(s, k)]"
proof -
  have "filter (\<lambda>(s', k'). length s' < length s) (rmatch (Seq (Star Dot) (Lit ''('')) (s, k))
          = rmatch (Seq (Star Dot) (Lit ''('')) (s, k)"
    by (rule filter_True) (auto simp del: rmatch.simps dest: dots_paren_shorter)
  then show ?thesis by (simp only: rmatch.simps(7))
qed

lemma seq_unfold: "rmatch (Seq a b) st = concat (map (rmatch b) (rmatch a st))"
  by (rule rmatch.simps(5))

lemma seq_dots_paren_Cons:
  "rmatch (Seq (Seq (Star Dot) (Lit ''('')) c) (x # s, k)
     = (if isDot x then rmatch (Seq (Seq (Star Dot) (Lit ''('')) c) (s, k) else [])
       @ (if x = CHR ''('' then rmatch c (s, k) else [])"
proof -
  have "rmatch (Seq (Seq (Star Dot) (Lit ''('')) c) (x # s, k)
          = concat (map (rmatch c) (rmatch (Seq (Star Dot) (Lit ''('')) (x # s, k)))"
    by (rule seq_unfold)
  also have "\<dots> = concat (map (rmatch c)
                       ((if isDot x then rmatch (Seq (Star Dot) (Lit ''('')) (s, k) else [])
                        @ (if x = CHR ''('' then [(s, k)] else [])))"
    by (simp only: dots_paren_Cons)
  also have "\<dots> = (if isDot x
                     then concat (map (rmatch c) (rmatch (Seq (Star Dot) (Lit ''('')) (s, k)))
                     else [])
                    @ (if x = CHR ''('' then rmatch c (s, k) else [])"
    by (simp del: rmatch.simps isDot.simps)
  also have "\<dots> = (if isDot x then rmatch (Seq (Seq (Star Dot) (Lit ''('')) c) (s, k) else [])
                    @ (if x = CHR ''('' then rmatch c (s, k) else [])"
    by (simp only: seq_unfold [of "Seq (Star Dot) (Lit ''('')" c "(s, k)"])
  finally show ?thesis .
qed

lemma seq_dots_paren_Nil: "rmatch (Seq (Seq (Star Dot) (Lit ''('')) c) ([], k) = []"
  by (simp only: seq_unfold [of "Seq (Star Dot) (Lit ''('')" c] dots_paren_Nil) simp

lemma later_paren_none:
  "noLaterParen b
   \<Longrightarrow> rmatch (Seq (Seq (Star Dot) (Lit ''('')) pathLinePattern) (b, Map.empty) = []"
proof (induction b)
  case Nil
  show ?case by (rule seq_dots_paren_Nil)
next
  case (Cons x b)
  show ?case
  proof (cases "isDot x")
    case True
    with Cons.prems have nb: "noLaterParen b"
      and p: "x = CHR ''('' \<longrightarrow> rmatch pathLinePattern (b, Map.empty) = []"
      by (simp_all del: isDot.simps rmatch.simps)
    have ih: "rmatch (Seq (Seq (Star Dot) (Lit ''('')) pathLinePattern) (b, Map.empty) = []"
      by (rule Cons.IH [OF nb])
    show ?thesis
    proof (cases "x = CHR ''(''")
      case True
      with p have "rmatch pathLinePattern (b, Map.empty) = []" by blast
      with ih \<open>isDot x\<close> show ?thesis
        by (simp only: seq_dots_paren_Cons if_True append_Nil if_cancel)
    next
      case False
      with ih \<open>isDot x\<close> show ?thesis
        by (simp only: seq_dots_paren_Cons if_True if_False append_Nil)
    qed
  next
    case False
    then have "x \<noteq> CHR ''(''" by auto
    with False show ?thesis
      by (simp only: seq_dots_paren_Cons if_False append_Nil)
  qed
qed

lemma frame_paren_head:
  "\<forall>c \<in> set name. isDot c \<Longrightarrow> noLaterParen b
   \<Longrightarrow> rmatch pathLinePattern (b, Map.empty) = y # ys
   \<Longrightarrow> \<exists>zs. rmatch (Seq (Seq (Star Dot) (Lit ''('')) pathLinePattern)
                  (name @ ''('' @ b, Map.empty) = y # zs"
proof (induction name)
  case Nil
  have "rmatch (Seq (Seq (Star Dot) (Lit ''('')) pathLinePattern) (b, Map.empty) = []"
    by (rule later_paren_none [OF Nil.prems(2)])
  with Nil.prems(3)
  have "rmatch (Seq (Seq (Star Dot) (Lit ''('')) pathLinePattern) (CHR ''('' # b, Map.empty)
          = y # ys"
    by (simp only: seq_dots_paren_Cons) (simp del: rmatch.simps)
  then show ?case by (simp del: rmatch.simps)
next
  case (Cons x name)
  then have dx: "isDot x" and "\<forall>c \<in> set name. isDot c"
    by (simp_all del: isDot.simps)
  with Cons.IH Cons.prems(2,3)
  obtain zs where "rmatch (Seq (Seq (Star Dot) (Lit ''('')) pathLinePattern)
                     (name @ ''('' @ b, Map.empty) = y # zs"
    by blast
  with dx
  have "rmatch (Seq (Seq (Star Dot) (Lit ''('')) pathLinePattern)
          (x # name @ ''('' @ b, Map.empty)
        = y # zs @ (if x = CHR ''(''
                    then rmatch pathLinePattern (name @ ''('' @ b, Map.empty) else [])"
    by (simp only: seq_dots_paren_Cons if_True append_Cons)
  then show ?case by (simp del: rmatch.simps isDot.simps)
qed

lemma keyword_at:
  "rmatch (Alt (Lit ''at '') (Alt (Lit ''in '') (Lit ''from ''))) (''at '' @ s, k) = [(s, k)]"
  by (simp del: rmatch.simps(8))

lemma path_head:
  assumes "path \<noteq> []" and "\<forall>x \<in> set path. x \<notin> set ''():''"
  shows "\<exists>zs. rmatch (Group 1 (Plus (NoneOf ''():''))) (path @ '':'' @ v, k)
               = ('':'' @ v, k(1 \<mapsto> path)) # zs"
proof -
  have "\<exists>zs. rmatch (Plus (NoneOf ''():'')) (path @ ('':'' @ v), k) = ('':'' @ v, k) # zs"
  proof (rule plus_class_head [where P = "\<lambda>c. c \<notin> set ''():''"])
    show "\<And>st. rmatch (NoneOf ''():'') st = oneChar (\<lambda>c. c \<notin> set ''():'') st"
      by (rule rmatch.simps(3))
    show "path \<noteq> []" by (rule assms(1))
    show "\<forall>c\<in>set path. c \<notin> set ''():''" by (rule assms(2))
    show "'':'' @ v = [] \<or> \<not> hd ('':'' @ v) \<notin> set ''():''"
      by simp
  qed
  then obtain z where "rmatch (Plus (NoneOf ''():'')) (path @ '':'' @ v, k) = ('':'' @ v, k) # z"
    by blast
  from group_head [OF this, of 1] show ?thesis
    by (simp del: rmatch.simps)
qed

lemma digits_head:
  assumes "digits \<noteq> []" and "\<forall>x \<in> set digits. isDigit x"
    and "rest = [] \<or> \<not> isDigit (hd rest)"
  shows "\<exists>zs. rmatch (Group 2 (Plus Digit)) (digits @ rest, k) = (rest, k(2 \<mapsto> digits)) # zs"
proof -
  have "\<exists>zs. rmatch (Plus Digit) (digits @ rest, k) = (rest, k) # zs"
  proof (rule plus_class_head [where P = isDigit])
    show "\<And>st. rmatch Digit st = oneChar isDigit st" by (rule rmatch.simps(4))
    show "digits \<noteq> []" by (rule assms(1))
    show "\<forall>c\<in>set digits. isDigit c" by (rule assms(2))
    show "rest = [] \<or> \<not> isDigit (hd rest)" by (rule assms(3))
  qed
  then obtain z where "rmatch (Plus Digit) (digits @ rest, k) = (rest, k) # z"
    by blast
  from group_head [OF this, of 2] show ?thesis
    by (simp del: rmatch.simps)
qed

lemma colon_digits_head:
  assumes "digits \<noteq> []" and "\<forall>x \<in> set digits. isDigit x"
    and "rest = [] \<or> \<not> isDigit (hd rest)"
  shows "\<exists>zs. rmatch (Seq (Lit '':'') (Group 2 (Plus Digit))) ('':'' @ digits @ rest, k)
               = (rest, k(2 \<mapsto> digits)) # zs"
proof -
  have colon: "rmatch (Lit '':'') ('':'' @ digits @ rest, k) = [(digits @ rest, k)]"
    by (simp del: rmatch.simps(8))
  from digits_head [OF assms, of k]
  obtain z where "rmatch (Group 2 (Plus Digit)) (digits @ rest, k) = (rest, k(2 \<mapsto> digits)) # z"
    by blast
  from seq_head [OF colon this] show ?thesis .
qed

lemma pathLine_head:
  assumes "path \<noteq> []" and "\<forall>x \<in> set path. x \<notin> set ''():''"
    and "digits \<noteq> []" and "\<forall>x \<in> set digits. isDigit x"
    and "rest = [] \<or> \<not> isDigit (hd rest)"
  shows "\<exists>zs. rmatch pathLinePattern (path @ '':'' @ digits @ rest, k)
               = (rest, k(1 \<mapsto> path, 2 \<mapsto> digits)) # zs"
proof -
  from path_head [OF assms(1,2), of "digits @ rest" k]
  obtain z1 where g1: "rmatch (Group 1 (Plus (NoneOf ''():''))) (path @ '':'' @ digits @ rest, k)
                        = ('':'' @ digits @ rest, k(1 \<mapsto> path)) # z1"
    by blast
  from colon_digits_head [OF assms(3-5), of "k(1 \<mapsto> path)"]
  obtain z2 where t: "rmatch (Seq (Lit '':'') (Group 2 (Plus Digit)))
                        ('':'' @ digits @ rest, k(1 \<mapsto> path))
                      = (rest, k(1 \<mapsto> path, 2 \<mapsto> digits)) # z2"
    by blast
  from seq_head [OF g1 t] show ?thesis
    unfolding pathLinePattern_def .
qed

lemma filePattern_head:
  assumes name: "\<forall>x \<in> set name. isDot x"
    and path: "path \<noteq> []" "\<forall>x \<in> set path. x \<notin> set ''():''"
    and digits: "digits \<noteq> []" "\<forall>x \<in> set digits. isDigit x"
    and rest: "rest = [] \<or> \<not> isDigit (hd rest)"
    and later: "noLaterParen (path @ '':'' @ digits @ rest)"
  shows "\<exists>zs. rmatch filePattern
                 (''at '' @ name @ ''('' @ path @ '':'' @ digits @ rest, Map.empty)
               = (rest, [1 \<mapsto> path, 2 \<mapsto> digits]) # zs"
proof -
  let ?b = "path @ '':'' @ digits @ rest"
  let ?s1 = "name @ ''('' @ ?b"
  let ?S = "Seq (Star Dot) (Lit ''('')"
  from pathLine_head [OF path digits rest, of Map.empty]
  obtain z1 where "rmatch pathLinePattern (?b, Map.empty)
                     = (rest, [1 \<mapsto> path, 2 \<mapsto> digits]) # z1"
    by blast
  from frame_paren_head [OF name later this]
  obtain z2 where f: "rmatch (Seq ?S pathLinePattern) (?s1, Map.empty)
                        = (rest, [1 \<mapsto> path, 2 \<mapsto> digits]) # z2"
    by blast
  have "rmatch (Seq (Opt ?S) pathLinePattern) (?s1, Map.empty)
          = concat (map (rmatch pathLinePattern) (rmatch ?S (?s1, Map.empty) @ [(?s1, Map.empty)]))"
    by (simp only: seq_unfold [of "Opt ?S"] opt_dots_paren)
  also have "\<dots> = rmatch (Seq ?S pathLinePattern) (?s1, Map.empty)
                    @ rmatch pathLinePattern (?s1, Map.empty)"
    by (simp only: seq_unfold [of ?S]) (simp del: rmatch.simps)
  finally have "rmatch (Seq (Opt ?S) pathLinePattern) (?s1, Map.empty)
                  = rmatch (Seq ?S pathLinePattern) (?s1, Map.empty)
                    @ rmatch pathLinePattern (?s1, Map.empty)" .
  then have t1: "rmatch (Seq (Opt ?S) pathLinePattern) (?s1, Map.empty)
                      = (rest, [1 \<mapsto> path, 2 \<mapsto> digits])
                        # (z2 @ rmatch pathLinePattern (?s1, Map.empty))"
    unfolding f by (simp only: append_Cons)
  from seq_head [OF keyword_at t1] show ?thesis
    unfolding filePattern_def pathLinePattern_def by (simp only: append_assoc)
qed

lemma strMatch_skip:
  "noMatchBefore r pre s \<Longrightarrow> strMatch r (pre @ s) = strMatch r s"
proof (induction pre)
  case Nil
  then show ?case by simp
next
  case (Cons x pre)
  then have "rmatch r (x # pre @ s, Map.empty) = []"
    and "strMatch r (pre @ s) = strMatch r s"
    by (simp_all del: rmatch.simps)
  then show ?case
    by (subst strMatch.simps) (simp del: rmatch.simps)
qed

lemma strMatch_head:
  "rmatch r (s, Map.empty) = (s', k) # zs
   \<Longrightarrow> strMatch r s = Some \<lparr>whole = take (length s - length s') s, groups = k\<rparr>"
  by (subst strMatch.simps) (simp del: rmatch.simps)

lemma strMatch_filePattern_frame:
  assumes "\<forall>x \<in> set name. isDot x"
    and "path \<noteq> []" "\<forall>x \<in> set path. x \<notin> set ''():''"
    and "digits \<noteq> []" "\<forall>x \<in> set digits. isDigit x"
    and "rest = [] \<or> \<not> isDigit (hd rest)"
    and "noLaterParen (path @ '':'' @ digits @ rest)"
  shows "\<exists>m. strMatch filePattern (''at '' @ name @ ''('' @ path @ '':'' @ digits @ rest) = Some m
             \<and> groups m 1 = Some path \<and> groups m 2 = Some digits"
proof -
  from filePattern_head [OF assms]
  obtain zs where "rmatch filePattern (''at '' @ name @ ''('' @ path @ '':'' @ digits @ rest, Map.empty)
                    = (rest, [1 \<mapsto> path, 2 \<mapsto> digits]) # zs"
    by blast
  from strMatch_head [OF this] show ?thesis
    by (simp del: rmatch.simps)
qed

lemma createAnalysis_location:
  "strMatch filePattern full = Some fm \<Longrightarrow>
     file (createAnalysis ty msg full d) = groups fm 1
     \<and> line (createAnalysis ty msg full d)
         = Some (case groups fm 2 of None \<Rightarrow> NaN | Some ds \<Rightarrow> parseInt10 ds)"
  by (cases ty) (simp_all add: createAnalysis_def Let_def)

lemma detect_cases:
  assumes "detect c = Some a" and "type a \<noteq> ET_UNKNOWN"
  shows "\<exists>ty m d. a = createAnalysis ty m (errorTextOf c) d"
proof (cases "find (matches (errorTextOf c)) (entries patterns)")
  case None
  with assms show ?thesis
    by (auto simp: detect_def Let_def scanEntries_find split: if_splits)
next
  case (Some e)
  with assms(1) have "analysisOf (errorTextOf c) e = Some a"
    using detect_first_match [OF Some] by simp
  then show ?thesis by (auto simp: analysisOf_def)
qed

text \<open>
  C8, as the code has it: let the error text be \<open>pre\<close>, then \<open>at \<close>, a
  name without line terminator, \<open>(\<close>, a non-empty path without
  parenthesis or colon, \<open>:\<close>, and a maximal non-empty run of digits whose
  value is below \<open>2 ^ 53\<close>. Let the file pattern match at no position inside
  \<open>pre\<close>, and let no \<open>(\<close> that follows on the line of the frame be directly
  followed by a path, a colon and digits. Then every diagnosis of a category
  other than unknown that detect returns for the text carries the path as file
  and the value of the digits as line, whichever category matched.
\<close>
theorem location_of_first_frame:
  assumes "errorTextOf c = pre @ ''at '' @ name @ ''('' @ path @ '':'' @ digits @ rest"
    and "noMatchBefore filePattern pre (''at '' @ name @ ''('' @ path @ '':'' @ digits @ rest)"
    and "\<forall>x \<in> set name. isDot x"
    and "path \<noteq> []" and "\<forall>x \<in> set path. x \<notin> set ''():''"
    and "digits \<noteq> []" and "\<forall>x \<in> set digits. isDigit x"
    and "rest = [] \<or> \<not> isDigit (hd rest)"
    and "noLaterParen (path @ '':'' @ digits @ rest)"
    and "parseInt10 digits = Num n"
    and "detect c = Some a" and "type a \<noteq> ET_UNKNOWN"
  shows "file a = Some path \<and> line a = Some (Num n)"
proof -
  from strMatch_filePattern_frame [OF assms(3-9)]
  obtain m where "strMatch filePattern (''at '' @ name @ ''('' @ path @ '':'' @ digits @ rest) = Some m"
    and g: "groups m 1 = Some path" "groups m 2 = Some digits"
    by blast
  with assms(1,2) have m: "strMatch filePattern (errorTextOf c) = Some m"
    by (simp only: strMatch_skip)
  from detect_cases [OF assms(11,12)]
  obtain ty msg d where "a = createAnalysis ty msg (errorTextOf c) d" by blast
  with createAnalysis_location [OF m, of ty msg d] g assms(10) show ?thesis by simp
qed

lemma detect_frameText:
  "detect (ctxOf [] frameText) =
     Some \<lparr>type = ET_SYNTAX,
           message = ''SyntaxError: Unexpected token in JSON at position 5'',
           file = Some ''/a/b/c.ext'', line = Some (Num 42), suggestion = None,
           confidence = 0.8\<rparr>"
  by (simp add: frameText_def fooFrame_def detect_defs parseInt10_def)

theorem location_of_first_frame_witness:
  "map_option file (detect (ctxOf [] frameText)) = Some (Some ''/a/b/c.ext'')
   \<and> map_option line (detect (ctxOf [] frameText)) = Some (Some (Num 42))"
proof -
  let ?a = "\<lparr>type = ET_SYNTAX,
           message = ''SyntaxError: Unexpected token in JSON at position 5'',
           file = Some ''/a/b/c.ext'', line = Some (Num 42), suggestion = None,
           confidence = 0.8\<rparr>"
  have t: "errorTextOf (ctxOf [] frameText)
             = (''SyntaxError: Unexpected token in JSON at position 5'' @ [LF] @ ''    '')
               @ ''at '' @ ''Foo '' @ ''('' @ ''/a/b/c.ext''
               @ '':'' @ ''42'' @ ('':7) (native)'' @ [LF] @ ''    at Bar (/x/y.js:9:1)'')"
    by (simp add: frameText_def fooFrame_def)
  have d: "detect (ctxOf [] frameText) = Some ?a" by (rule detect_frameText)
  have "file ?a = Some ''/a/b/c.ext'' \<and> line ?a = Some (Num 42)"
    by (rule location_of_first_frame [OF t _ _ _ _ _ _ _ _ _ d])
       (simp_all add: parseInt10_def filePattern_def pathLinePattern_def)
  with d show ?thesis by simp
qed

lemma sublist_earlier: "sublist fooFrame earlierText"
  by (simp only: earlierText_def append_assoc [symmetric] sublist_append_leftI)

lemma sublist_later: "sublist fooFrame laterText"
proof -
  have eq: "laterText = (''TypeError: boom'' @ [LF] @ ''    '') @ fooFrame @ '' (y:5)''"
    by (simp add: laterText_def)
  show ?thesis unfolding eq by (rule sublist_appendI)
qed

lemma detect_earlierText:
  "detect (ctxOf [] earlierText) =
     Some \<lparr>type = ET_SYNTAX, message = ''SyntaxError: bad token in x:1'', file = Some ''x'',
           line = Some (Num 1), suggestion = None, confidence = 0.8\<rparr>"
  by (simp add: earlierText_def fooFrame_def detect_defs parseInt10_def)

lemma detect_laterText:
  "detect (ctxOf [] laterText) =
     Some \<lparr>type = ET_TYPE, message = ''TypeError: boom'', file = Some ''y'',
           line = Some (Num 5), suggestion = None, confidence = 0.8\<rparr>"
  by (simp add: laterText_def fooFrame_def detect_defs parseInt10_def)

text \<open>
  C8 fails as stated: the file pattern takes the leftmost place where it
  matches and, there, the last parenthesis of the line that a path, a colon
  and digits follow. In a text that contains the frame
  \<open>at Foo (/a/b/c.ext:42:7)\<close> after the words \<open>in x:1\<close>, the diagnosis has
  file \<open>x\<close> and line 1; in a text where \<open>(y:5)\<close> follows the frame on its
  line, the diagnosis has file \<open>y\<close> and line 5.
\<close>
theorem location_of_earlier_match:
  "map_option type (detect (ctxOf [] earlierText)) = Some ET_SYNTAX
   \<and> map_option file (detect (ctxOf [] earlierText)) = Some (Some ''x'')
   \<and> map_option line (detect (ctxOf [] earlierText)) = Some (Some (Num 1))
   \<and> sublist fooFrame earlierText
   \<and> map_option type (detect (ctxOf [] laterText)) = Some ET_TYPE
   \<and> map_option file (detect (ctxOf [] laterText)) = Some (Some ''y'')
   \<and> map_option line (detect (ctxOf [] laterText)) = Some (Some (Num 5))
   \<and> sublist fooFrame laterText"
  by (simp add: detect_earlierText sublist_earlier detect_laterText sublist_later)

section \<open>The category of a matched text\<close>

text \<open>
  C7: for every error text that some pattern of the table matches, detect
  returns a diagnosis whose category is that of the pattern that matched, the
  first entry of the table in scan order that matches the text, with confidence
  0.8 and with the text matched by that pattern, a contiguous part of the
  error text, as message.
\<close>
theorem detect_first_matching_category:
  assumes "e0 \<in> set (entries patterns)" and "matches (errorTextOf c) e0"
  shows "\<exists>e m a. find (matches (errorTextOf c)) (entries patterns) = Some e
           \<and> strMatch (snd e) (errorTextOf c) = Some m
           \<and> detect c = Some a \<and> type a = fst e \<and> confidence a = 0.8
           \<and> message a = whole m \<and> sublist (whole m) (errorTextOf c)"
proof -
  let ?t = "errorTextOf c"
  have "find (matches ?t) (entries patterns) \<noteq> None"
    unfolding find_None_iff using assms by blast
  then obtain e where f: "find (matches ?t) (entries patterns) = Some e"
    by blast
  then have "matches ?t e" by (auto simp: find_Some_iff)
  then obtain m where m: "strMatch (snd e) ?t = Some m" by (auto simp: matches_def)
  from f have "detect c = analysisOf ?t e" using detect_first_match by blast
  with m have d: "detect c = Some (createAnalysis (fst e) (whole m) ?t (groups m 1))"
    by (simp add: analysisOf_def)
  from m have "sublist (whole m) ?t" by (rule strMatch_sublist)
  with f m d show ?thesis by simp
qed

lemma find_expressText:
  "find (matches expressText) (entries patterns)
     = Some (ET_MODULE, quoted1 (''Cannot find module '' @ [SQ]) [SQ])"
  by (simp add: table_defs expressText_def strMatch.simps)

lemma strMatch_expressText:
  "map_option whole (strMatch (quoted1 (''Cannot find module '' @ [SQ]) [SQ]) expressText)
     = Some (''Cannot find module '' @ [SQ] @ ''express'' @ [SQ])"
  by (simp add: expressText_def strMatch.simps)

theorem detect_first_matching_category_witness:
  "map_option type (detect (ctxOf [] expressText)) = Some ET_MODULE
   \<and> map_option message (detect (ctxOf [] expressText))
       = Some (''Cannot find module '' @ [SQ] @ ''express'' @ [SQ])
   \<and> map_option confidence (detect (ctxOf [] expressText)) = Some 0.8"
proof -
  let ?p = "quoted1 (''Cannot find module '' @ [SQ]) [SQ]"
  let ?c = "ctxOf [] expressText"
  have t: "errorTextOf ?c = expressText" by (simp add: errorTextOf_def ctxOf_def expressText_def)
  from find_expressText have "(ET_MODULE, ?p) \<in> set (entries patterns)"
    and "matches (errorTextOf ?c) (ET_MODULE, ?p)"
    unfolding t by (auto simp only: find_Some_iff nth_mem)
  from detect_first_matching_category [OF this]
  obtain e m a where "find (matches expressText) (entries patterns) = Some e"
    and "strMatch (snd e) expressText = Some m"
    and "detect ?c = Some a" "type a = fst e" "confidence a = 0.8" "message a = whole m"
    unfolding t by blast
  with find_expressText strMatch_expressText show ?thesis by auto
qed

end
